theory Spec2Isabelle
  imports
    Complex_Main
    "HOL-Library.AList"
    "HOL-Library.Char_ord"
    "HOL-Library.List_Lexorder"
    "HOL-Library.Product_Lexorder"
    "HOL-Library.Multiset"
begin

unbundle bit_operations_syntax

section \<open>Python text and numbers\<close>

text \<open>
  Text is modelled as \<^typ>\<open>string\<close>, one \<^typ>\<open>char\<close> per code point below 256. The order on
  characters is the order of their codes, the order on strings and on pairs is lexicographic:
  this is how Python compares \<open>str\<close> values and tuples. The data the pipeline handles
  (player tags, timestamps, card identifiers, variant labels) is ASCII; \<open>upper\<close> below is
  Python's \<open>str.upper\<close> on ASCII text and leaves every other character as it is.
  Python's integers are unbounded: \<^typ>\<open>int\<close>.
\<close>

definition digit_char :: "nat \<Rightarrow> char" where
  "digit_char d = ''0123456789'' ! d"

fun str_nat :: "nat \<Rightarrow> string" where
  "str_nat n = (if n < 10 then [digit_char n] else str_nat (n div 10) @ [digit_char (n mod 10)])"

declare str_nat.simps [simp del]

text \<open>\<open>str(i)\<close> for an integer \<open>i\<close>.\<close>

definition str_int :: "int \<Rightarrow> string" where
  "str_int i = (if i < 0 then CHR ''-'' # str_nat (nat (- i)) else str_nat (nat i))"

text \<open>\<open>str.isspace\<close> on the code points below 256.\<close>

definition is_space :: "char \<Rightarrow> bool" where
  "is_space c = ((of_char c :: nat) \<in> {9, 10, 11, 12, 13, 28, 29, 30, 31, 32, 133, 160})"

definition strip :: "string \<Rightarrow> string" where
  "strip s = rev (dropWhile is_space (rev (dropWhile is_space s)))"

definition upper_char :: "char \<Rightarrow> char" where
  "upper_char c =
     (case map_of (zip ''abcdefghijklmnopqrstuvwxyz'' ''ABCDEFGHIJKLMNOPQRSTUVWXYZ'') c of
        None \<Rightarrow> c
      | Some u \<Rightarrow> u)"

definition upper :: "string \<Rightarrow> string" where
  "upper s = map upper_char s"

text \<open>\<open>sep.join(parts)\<close>.\<close>

fun join :: "string \<Rightarrow> string list \<Rightarrow> string" where
  "join sep [] = []"
| "join sep [x] = x"
| "join sep (x # y # ys) = x @ sep @ join sep (y # ys)"

text \<open>\<open>s.encode("utf-8")\<close>, as a list of byte values.\<close>

definition utf8_char :: "char \<Rightarrow> nat list" where
  "utf8_char c =
     (let n = (of_char c :: nat)
      in if n < 128 then [n] else [192 + n div 64, 128 + n mod 64])"

definition utf8 :: "string \<Rightarrow> nat list" where
  "utf8 s = concat (map utf8_char s)"

section \<open>SHA-1 (\<open>hashlib.sha1(...).hexdigest()\<close>)\<close>

text \<open>
  The digest of the standard library, over 32-bit words kept as natural numbers with the
  wrap-around written out.
\<close>

definition add32 :: "nat \<Rightarrow> nat \<Rightarrow> nat" where
  "add32 x y = (x + y) mod 4294967296"

definition rotl :: "nat \<Rightarrow> nat \<Rightarrow> nat" where
  "rotl n x = (x * 2 ^ n) mod 4294967296 + x div 2 ^ (32 - n)"

definition not32 :: "nat \<Rightarrow> nat" where
  "not32 x = 4294967295 - x"

definition f_ch :: "nat \<Rightarrow> nat \<Rightarrow> nat \<Rightarrow> nat" where
  "f_ch b c d = (b AND c) OR (not32 b AND d)"

definition f_parity :: "nat \<Rightarrow> nat \<Rightarrow> nat \<Rightarrow> nat" where
  "f_parity b c d = b XOR c XOR d"

definition f_maj :: "nat \<Rightarrow> nat \<Rightarrow> nat \<Rightarrow> nat" where
  "f_maj b c d = (b AND c) OR (b AND d) OR (c AND d)"

fun zeros :: "nat \<Rightarrow> nat list" where
  "zeros n = (if n = 0 then [] else 0 # zeros (n - 1))"

declare zeros.simps [simp del]

definition be64 :: "nat \<Rightarrow> nat list" where
  "be64 v = map (\<lambda>k. v div 256 ^ k mod 256) [7, 6, 5, 4, 3, 2, 1, 0]"

definition sha1_pad :: "nat list \<Rightarrow> nat list" where
  "sha1_pad bs =
     bs @ [128] @ zeros ((119 - length bs mod 64) mod 64) @ be64 (8 * length bs)"

fun be_words :: "nat list \<Rightarrow> nat list" where
  "be_words (a # b # c # d # rest) =
     (((a * 256 + b) * 256 + c) * 256 + d) # be_words rest"
| "be_words _ = []"

text \<open>
  The message schedule, most recent word first: \<open>extend n r\<close> puts \<open>n\<close> further words in
  front of \<open>r\<close>, each from the words 3, 8, 14 and 16 places before it.
\<close>

fun extend :: "nat \<Rightarrow> nat list \<Rightarrow> nat list" where
  "extend n r =
     (if n = 0 then r
      else extend (n - 1) (rotl 1 (r ! 2 XOR r ! 7 XOR r ! 13 XOR r ! 15) # r))"

declare extend.simps [simp del]

definition schedule :: "nat list \<Rightarrow> nat list" where
  "schedule blk = rev (extend 64 (rev blk))"

type_synonym sha1_state = "nat \<times> nat \<times> nat \<times> nat \<times> nat"

fun rounds ::
  "(nat \<Rightarrow> nat \<Rightarrow> nat \<Rightarrow> nat) \<Rightarrow> nat \<Rightarrow> nat list \<Rightarrow> sha1_state \<Rightarrow> sha1_state" where
  "rounds f k [] s = s"
| "rounds f k (w # ws) (a, b, c, d, e) =
     rounds f k ws
       (add32 (add32 (add32 (add32 (rotl 5 a) (f b c d)) e) k) w, a, rotl 30 b, c, d)"

definition rounds80 :: "nat list \<Rightarrow> sha1_state \<Rightarrow> sha1_state" where
  "rounds80 w h =
     rounds f_parity 0xCA62C1D6 (drop 60 w)
       (rounds f_maj 0x8F1BBCDC (take 20 (drop 40 w))
          (rounds f_parity 0x6ED9EBA1 (take 20 (drop 20 w))
             (rounds f_ch 0x5A827999 (take 20 w) h)))"

fun add_state :: "sha1_state \<Rightarrow> sha1_state \<Rightarrow> sha1_state" where
  "add_state (h0, h1, h2, h3, h4) (a, b, c, d, e) =
     (add32 h0 a, add32 h1 b, add32 h2 c, add32 h3 d, add32 h4 e)"

definition compress :: "sha1_state \<Rightarrow> nat list \<Rightarrow> sha1_state" where
  "compress h blk = add_state h (rounds80 (schedule blk) h)"

function blocks :: "nat list \<Rightarrow> sha1_state \<Rightarrow> sha1_state" where
  "blocks ws h =
     (if length ws < 16 then h else blocks (drop 16 ws) (compress h (take 16 ws)))"
  by pat_completeness auto
termination
  by (relation "measure (\<lambda>(ws, h). length ws)") auto

declare blocks.simps [simp del]

definition hex_digit :: "nat \<Rightarrow> char" where
  "hex_digit n = ''0123456789abcdef'' ! n"

definition hex32 :: "nat \<Rightarrow> string" where
  "hex32 v = map (\<lambda>k. hex_digit (v div 16 ^ k mod 16)) [7, 6, 5, 4, 3, 2, 1, 0]"

fun hex_state :: "sha1_state \<Rightarrow> string" where
  "hex_state (h0, h1, h2, h3, h4) = hex32 h0 @ hex32 h1 @ hex32 h2 @ hex32 h3 @ hex32 h4"

definition sha1_hex :: "nat list \<Rightarrow> string" where
  "sha1_hex bs =
     hex_state (blocks (be_words (sha1_pad bs))
       (0x67452301, 0xEFCDAB89, 0x98BADCFE, 0x10325476, 0xC3D2E1F0))"

section \<open>\<open>src/clashdb/hash_utils.py\<close>\<close>

type_synonym CardKey = "string \<times> string"

text \<open>
  \<open>canonical_deck_signature\<close>: the pairs, already strings, are sorted by the key
  \<open>(x[0], x[1])\<close> and joined as \<open>id:variant\<close> segments with \<open>|\<close>.
\<close>

definition canonical_deck_signature :: "CardKey list \<Rightarrow> string" where
  "canonical_deck_signature cards =
     (let normalized = sort_key (\<lambda>x. (fst x, snd x)) cards
      in join ''|'' (map (\<lambda>(cid, variant). cid @ '':'' @ variant) normalized))"

definition deck_hash_from_signature :: "string \<Rightarrow> string" where
  "deck_hash_from_signature sig = sha1_hex (utf8 sig)"

subsection \<open>Raw match records\<close>

text \<open>
  A battle record is the JSON object of the battle-log source. A field that is absent or
  \<open>null\<close> is \<open>None\<close>; for \<open>team\<close>, \<open>opponent\<close> and \<open>cards\<close>, \<open>None\<close> also stands for a
  value that is not a list, and inside these lists \<open>None\<close> stands for an entry that is not an
  object: the code only asks \<open>isinstance\<close> of them. Tags, names and timestamps are strings,
  crowns, identifiers and levels integers.
\<close>

record card_raw =
  c_id :: "int option"
  c_name :: "string option"
  c_evolutionLevel :: "int option"

record participant =
  p_tag :: "string option"
  p_crowns :: "int option"
  p_cards :: "card_raw option list option"

record game_mode =
  gm_id :: "int option"
  gm_name :: "string option"

record battle =
  b_battleTime :: "string option"
  b_gameMode :: "game_mode option"
  b_type :: "string option"
  b_team :: "participant option list option"
  b_opponent :: "participant option list option"

text \<open>\<open>x or d\<close> for an optional string, integer or list.\<close>

definition str_or :: "string option \<Rightarrow> string \<Rightarrow> string" where
  "str_or x d = (case x of None \<Rightarrow> d | Some s \<Rightarrow> if s = [] then d else s)"

definition int_or :: "int option \<Rightarrow> int \<Rightarrow> int" where
  "int_or x d = (case x of None \<Rightarrow> d | Some i \<Rightarrow> if i = 0 then d else i)"

definition list_or :: "'a list option \<Rightarrow> 'a list \<Rightarrow> 'a list" where
  "list_or x d = (case x of None \<Rightarrow> d | Some xs \<Rightarrow> if xs = [] then d else xs)"

subsection \<open>\<open>json.dumps(payload, sort_keys=True, separators=(",", ":"))\<close>\<close>

definition hex4 :: "nat \<Rightarrow> string" where
  "hex4 v = map (\<lambda>k. hex_digit (v div 16 ^ k mod 16)) [3, 2, 1, 0]"

text \<open>String escaping with \<open>ensure_ascii\<close>, the default.\<close>

definition json_escape_char :: "char \<Rightarrow> string" where
  "json_escape_char c =
     (let n = (of_char c :: nat)
      in if n = 34 then [CHR 0x5C, CHR 0x22]
         else if n = 92 then [CHR 0x5C, CHR 0x5C]
         else if n = 10 then [CHR 0x5C, CHR ''n'']
         else if n = 13 then [CHR 0x5C, CHR ''r'']
         else if n = 9 then [CHR 0x5C, CHR ''t'']
         else if n = 8 then [CHR 0x5C, CHR ''b'']
         else if n = 12 then [CHR 0x5C, CHR ''f'']
         else if 32 \<le> n \<and> n \<le> 126 then [c]
         else [CHR 0x5C, CHR ''u''] @ hex4 n)"

definition json_string :: "string \<Rightarrow> string" where
  "json_string s = [CHR 0x22] @ concat (map json_escape_char s) @ [CHR 0x22]"

text \<open>One entry of a side's payload, \<open>{"tag": tag, "crowns": crowns}\<close>, keys sorted.\<close>

definition json_entry :: "string \<times> int \<Rightarrow> string" where
  "json_entry e =
     ''{'' @ json_string ''crowns'' @ '':'' @ str_int (snd e) @ '','' @
       json_string ''tag'' @ '':'' @ json_string (fst e) @ ''}''"

definition json_side :: "(string \<times> int) list \<Rightarrow> string" where
  "json_side es = ''['' @ join '','' (map json_entry es) @ '']''"

subsection \<open>\<open>match_hash\<close>\<close>

definition mode_key :: "battle \<Rightarrow> string" where
  "mode_key b =
     (let game_mode = (case b_gameMode b of None \<Rightarrow> \<lparr>gm_id = None, gm_name = None\<rparr> | Some g \<Rightarrow> g);
          mode_id = gm_id game_mode;
          mode_name = gm_name game_mode
      in if int_or mode_id 0 \<noteq> 0 then str_int (int_or mode_id 0)
         else if str_or mode_name [] \<noteq> [] then str_or mode_name []
         else str_or (b_type b) [])"

text \<open>
  \<open>side_payload\<close>: entries that are not objects are skipped, the tag is uppercased, and the
  list is sorted by tag (Python's sort is stable, as \<^const>\<open>sort_key\<close> is).
\<close>

definition side_entry :: "participant \<Rightarrow> string \<times> int" where
  "side_entry p = (upper (str_or (p_tag p) []), int_or (p_crowns p) 0)"

definition side_payload :: "participant option list \<Rightarrow> (string \<times> int) list" where
  "side_payload side = sort_key fst (map side_entry (List.map_filter (\<lambda>p. p) side))"

definition match_blob :: "battle \<Rightarrow> string" where
  "match_blob b =
     (let battle_time = str_or (b_battleTime b) [];
          team = list_or (b_team b) [];
          opp = list_or (b_opponent b) []
      in ''{'' @ json_string ''battleTime'' @ '':'' @ json_string battle_time @ '','' @
           json_string ''mode'' @ '':'' @ json_string (mode_key b) @ '','' @
           json_string ''opponent'' @ '':'' @ json_side (side_payload opp) @ '','' @
           json_string ''team'' @ '':'' @ json_side (side_payload team) @ ''}'')"

definition match_hash :: "battle \<Rightarrow> string" where
  "match_hash b = sha1_hex (utf8 (match_blob b))"

text \<open>The same match as the other participant's log records it: the two sides swapped.\<close>

definition swap_sides :: "battle \<Rightarrow> battle" where
  "swap_sides b = b\<lparr>b_team := b_opponent b, b_opponent := b_team b\<rparr>"

section \<open>\<open>src/analysist/battle_filters.py\<close>\<close>

definition RANKED_MODE_ID_WHITELIST :: "int set" where
  "RANKED_MODE_ID_WHITELIST = {72000006, 72000464}"

definition is_ranked_1v1_battle :: "battle \<Rightarrow> bool" where
  "is_ranked_1v1_battle b =
     (case (b_team b, b_opponent b) of
        (Some team, Some opponent) \<Rightarrow>
          if length team \<noteq> 1 \<or> length opponent \<noteq> 1 then False
          else (case b_gameMode b of
                  None \<Rightarrow> False
                | Some game_mode \<Rightarrow>
                    (case gm_id game_mode of
                       None \<Rightarrow> False
                     | Some mode_id \<Rightarrow> mode_id \<in> RANKED_MODE_ID_WHITELIST))
      | _ \<Rightarrow> False)"

section \<open>\<open>src/analysist/deck_type.py\<close>\<close>

text \<open>
  One row of the card metadata file. The file itself is not part of the sources, so the two
  tables built from it (by card name for the classifier, by identifier for the extractor)
  are parameters of the model. A cost that is not a number is \<open>None\<close>; costs are exact
  rationals, which is what the floating-point sums are for the integer costs of the game.
\<close>

record meta_row =
  m_name :: "string option"
  m_elixir :: "rat option"
  is_bait_piece :: bool
  is_bridge_spam_piece :: bool
  is_big_tank :: bool

type_synonym card_table = "string \<rightharpoonup> meta_row"

text \<open>\<open>_get_card_meta\<close>: the row of a name, the empty object when there is none.\<close>

definition empty_row :: meta_row where
  "empty_row = \<lparr>m_name = None, m_elixir = None, is_bait_piece = False,
                 is_bridge_spam_piece = False, is_big_tank = False\<rparr>"

definition get_card_meta :: "card_table \<Rightarrow> string \<Rightarrow> meta_row" where
  "get_card_meta by_name card_name = (case by_name card_name of None \<Rightarrow> empty_row | Some m \<Rightarrow> m)"

definition ARCHETYPE_SIEGE :: string where "ARCHETYPE_SIEGE = ''Siege''"
definition ARCHETYPE_BAIT :: string where "ARCHETYPE_BAIT = ''Bait''"
definition ARCHETYPE_CYCLE :: string where "ARCHETYPE_CYCLE = ''Cycle''"
definition ARCHETYPE_BRIDGE_SPAM :: string where "ARCHETYPE_BRIDGE_SPAM = ''Bridge Spam''"
definition ARCHETYPE_BEATDOWN :: string where "ARCHETYPE_BEATDOWN = ''Beatdown''"
definition ARCHETYPE_HYBRID :: string where "ARCHETYPE_HYBRID = ''Hybrid''"

record deck_values =
  avg_elixir :: rat
  four_card_cycle_cost :: rat
  has_xbow :: bool
  has_mortar :: bool
  bait_pieces :: nat
  bridge_spam_count :: nat
  big_tank_count :: nat

definition known_elixirs :: "card_table \<Rightarrow> string list \<Rightarrow> rat list" where
  "known_elixirs by_name cards = List.map_filter (\<lambda>c. m_elixir (get_card_meta by_name c)) cards"

definition precompute_deck_values :: "card_table \<Rightarrow> string list \<Rightarrow> deck_values" where
  "precompute_deck_values by_name cards =
     (let metas = map (get_card_meta by_name) cards;
          elixirs = known_elixirs by_name cards
      in \<lparr>avg_elixir = (if length elixirs = 0 then 3 else sum_list elixirs / 8),
          four_card_cycle_cost =
            (if length elixirs = 0 then 12 else sum_list (take 4 (sort elixirs))),
          has_xbow = (''X-Bow'' \<in> set cards),
          has_mortar = (''Mortar'' \<in> set cards),
          bait_pieces = length (filter is_bait_piece metas),
          bridge_spam_count = length (filter is_bridge_spam_piece metas),
          big_tank_count = length (filter is_big_tank metas)\<rparr>)"

definition classify_deck :: "card_table \<Rightarrow> string list \<Rightarrow> string" where
  "classify_deck by_name cards =
     (if cards = [] then ARCHETYPE_HYBRID
      else
        let v = precompute_deck_values by_name cards
        in if has_xbow v then ARCHETYPE_SIEGE
           else if has_mortar v then ARCHETYPE_SIEGE
           else if bait_pieces v \<ge> 3 then ARCHETYPE_BAIT
           else if four_card_cycle_cost v \<le> 9 then ARCHETYPE_CYCLE
           else if bridge_spam_count v \<ge> 2 then ARCHETYPE_BRIDGE_SPAM
           else if big_tank_count v \<ge> 1 \<and> avg_elixir v \<ge> 7 / 2 then ARCHETYPE_BEATDOWN
           else ARCHETYPE_HYBRID)"

section \<open>\<open>src/clashdb/card_metadata.py\<close>\<close>

text \<open>\<open>card_name_from_id\<close>, on the table keyed by \<open>str(id)\<close>.\<close>

definition card_name_from_id :: "card_table \<Rightarrow> string \<Rightarrow> string option" where
  "card_name_from_id meta cid =
     (case meta cid of
        None \<Rightarrow> None
      | Some row \<Rightarrow>
          (case m_name row of
             None \<Rightarrow> None
           | Some n \<Rightarrow> if n = [] then None else Some (strip n)))"

section \<open>\<open>scripts/etl_snapshot_top20.py\<close>\<close>

subsection \<open>Helpers\<close>

definition normalize_tag :: "string option \<Rightarrow> string" where
  "normalize_tag tag =
     (let t = upper (strip (str_or tag []))
      in if t \<noteq> [] \<and> hd t \<noteq> CHR ''#'' then CHR ''#'' # t else t)"

definition card_variant_from_evolution_level :: "int option \<Rightarrow> string" where
  "card_variant_from_evolution_level evolution_level =
     (let lvl = int_or evolution_level 0
      in if lvl = 1 then ''evo'' else if lvl = 2 then ''hero'' else ''normal'')"

record CardObs =
  card_id :: int
  card_name :: string
  card_variant :: string
  slot :: int

text \<open>The observation built from one raw entry that has an identifier.\<close>

definition make_obs :: "card_table \<Rightarrow> int \<Rightarrow> card_raw \<Rightarrow> int \<Rightarrow> CardObs" where
  "make_obs card_meta idx c cid =
     (let nm = strip (str_or (c_name c) []);
          nm' = (if nm = [] then str_or (card_name_from_id card_meta (str_int cid)) [] else nm)
      in \<lparr>card_id = cid, card_name = nm',
          card_variant = card_variant_from_evolution_level (c_evolutionLevel c), slot = idx\<rparr>)"

text \<open>
  The loop over \<open>enumerate(cards[:8], start=1)\<close>: it returns \<open>None\<close> at the first entry that
  is not an object or has no identifier, and the list of observations otherwise.
\<close>

fun build_obs :: "card_table \<Rightarrow> int \<Rightarrow> card_raw option list \<Rightarrow> CardObs list option" where
  "build_obs card_meta idx [] = Some []"
| "build_obs card_meta idx (e # es) =
     (case e of
        None \<Rightarrow> None
      | Some c \<Rightarrow>
          (case c_id c of
             None \<Rightarrow> None
           | Some cid \<Rightarrow>
               (case build_obs card_meta (idx + 1) es of
                  None \<Rightarrow> None
                | Some out \<Rightarrow> Some (make_obs card_meta idx c cid # out))))"

definition extract_8_cards :: "participant \<Rightarrow> card_table \<Rightarrow> CardObs list option" where
  "extract_8_cards participant card_meta =
     (let cards = list_or (p_cards participant) []
      in if length cards < 8 then None
         else (case build_obs card_meta 1 (take 8 cards) of
                 None \<Rightarrow> None
               | Some out \<Rightarrow>
                   if card (set (map (\<lambda>x. (card_id x, card_variant x)) out)) \<noteq> 8 then None
                   else Some out))"

text \<open>An entry of a side that is not an object counts as the empty object.\<close>

definition empty_participant :: participant where
  "empty_participant = \<lparr>p_tag = None, p_crowns = None, p_cards = None\<rparr>"

definition participant_is_win_ranked_1v1 :: "battle \<Rightarrow> string \<Rightarrow> bool" where
  "participant_is_win_ranked_1v1 b participant_tag =
     (let ptag = normalize_tag (Some participant_tag);
          team = list_or (b_team b) [];
          opp = list_or (b_opponent b) []
      in case (team, opp) of
           ([t], [opp0]) \<Rightarrow>
             (let t0 = (case t of None \<Rightarrow> empty_participant | Some p \<Rightarrow> p);
                  o0 = (case opp0 of None \<Rightarrow> empty_participant | Some p \<Rightarrow> p);
                  team_tag = normalize_tag (p_tag t0);
                  opp_tag = normalize_tag (p_tag o0);
                  team_crowns = int_or (p_crowns t0) 0;
                  opp_crowns = int_or (p_crowns o0) 0
              in if ptag = team_tag then team_crowns > opp_crowns
                 else if ptag = opp_tag then opp_crowns > team_crowns
                 else False)
         | _ \<Rightarrow> False)"

subsection \<open>Aggregate counters\<close>

text \<open>
  A \<open>defaultdict\<close> of \<open>{"uses": 0, "wins": 0}\<close> counters is an association list in insertion
  order; a key that is not there reads as the zero counter.
\<close>

record counter =
  uses :: int
  wins :: int

type_synonym 'k counters = "('k \<times> counter) list"

definition zero_counter :: counter where
  "zero_counter = \<lparr>uses = 0, wins = 0\<rparr>"

definition get_counter :: "'k counters \<Rightarrow> 'k \<Rightarrow> counter" where
  "get_counter d k = (case map_of d k of None \<Rightarrow> zero_counter | Some c \<Rightarrow> c)"

text \<open>\<open>d[k]["uses"] += u; d[k]["wins"] += w\<close>.\<close>

definition add_counter :: "'k counters \<Rightarrow> 'k \<Rightarrow> int \<Rightarrow> int \<Rightarrow> 'k counters" where
  "add_counter d k u w =
     AList.update k \<lparr>uses = uses (get_counter d k) + u, wins = wins (get_counter d k) + w\<rparr> d"

subsection \<open>The scan\<close>

record etl_state =
  seen_matches :: "string set"
  scanned_entries :: int
  deduped_matches :: int
  cards_dim :: "(int \<times> string) list"
  deck_hash_to_type :: "(string \<times> string) list"
  deck_hash_to_cards :: "(string \<times> CardObs list) list"
  player_decks_top :: "(string \<times> string) counters"
  meta_deck_types :: "string counters"
  meta_type_deck_ids :: "(string \<times> string) counters"
  meta_type_cards :: "(string \<times> int \<times> string) counters"

definition initial_state :: etl_state where
  "initial_state =
     \<lparr>seen_matches = {}, scanned_entries = 0, deduped_matches = 0, cards_dim = [],
      deck_hash_to_type = [], deck_hash_to_cards = [], player_decks_top = [],
      meta_deck_types = [], meta_type_deck_ids = [], meta_type_cards = []\<rparr>"

text \<open>
  What the run reads from outside: the two card tables, the override table and the battle
  log of each tag (\<open>None\<close> when the source does not return a list; an entry that is not an
  object is \<open>None\<close>).
\<close>

record etl_env =
  card_meta :: card_table
  card_meta_by_name :: card_table
  deck_type_overrides :: "string \<rightharpoonup> string"
  get_player_battlelog :: "string \<Rightarrow> battle option list option"

definition deck_hash_of :: "CardObs list \<Rightarrow> string" where
  "deck_hash_of card_obs =
     (let card_keys = map (\<lambda>c. (str_int (card_id c), card_variant c)) card_obs;
          sig = canonical_deck_signature card_keys
      in deck_hash_from_signature sig)"

definition names_for_classifier :: "CardObs list \<Rightarrow> string list" where
  "names_for_classifier card_obs = filter (\<lambda>n. n \<noteq> []) (map card_name card_obs)"

text \<open>\<open>deck_type_overrides.get(dh) or classify_deck(names_for_classifier)\<close>.\<close>

definition resolve_deck_type :: "etl_env \<Rightarrow> string \<Rightarrow> CardObs list \<Rightarrow> string" where
  "resolve_deck_type env dh card_obs =
     (case deck_type_overrides env dh of
        None \<Rightarrow> classify_deck (card_meta_by_name env) (names_for_classifier card_obs)
      | Some dt \<Rightarrow>
          if dt = [] then classify_deck (card_meta_by_name env) (names_for_classifier card_obs)
          else dt)"

text \<open>The updates made for one participant with a valid deck.\<close>

definition record_participant ::
  "string set \<Rightarrow> string \<Rightarrow> CardObs list \<Rightarrow> string \<Rightarrow> string \<Rightarrow> bool \<Rightarrow> etl_state \<Rightarrow> etl_state" where
  "record_participant top_tags tag card_obs dh dtype won s =
     (let w = (if won then 1 else 0);
          new_deck = (map_of (deck_hash_to_type s) dh = None)
      in s\<lparr>deck_hash_to_type :=
             (if new_deck then AList.update dh dtype (deck_hash_to_type s)
              else deck_hash_to_type s),
           deck_hash_to_cards :=
             (if new_deck then AList.update dh card_obs (deck_hash_to_cards s)
              else deck_hash_to_cards s),
           cards_dim :=
             fold (\<lambda>c d. if card_name c \<noteq> [] then AList.update (card_id c) (card_name c) d else d)
               card_obs (cards_dim s),
           meta_deck_types := add_counter (meta_deck_types s) dtype 1 w,
           meta_type_deck_ids := add_counter (meta_type_deck_ids s) (dtype, dh) 1 w,
           meta_type_cards :=
             fold (\<lambda>c d. add_counter d (dtype, card_id c, card_variant c) 1 w)
               card_obs (meta_type_cards s),
           player_decks_top :=
             (if tag \<in> top_tags then add_counter (player_decks_top s) (tag, dh) 1 w
              else player_decks_top s)\<rparr>)"

definition process_participant ::
  "etl_env \<Rightarrow> string set \<Rightarrow> battle \<Rightarrow> participant option \<Rightarrow> etl_state \<Rightarrow> etl_state" where
  "process_participant env top_tags b part s =
     (case part of
        None \<Rightarrow> s
      | Some p \<Rightarrow>
          (let tag = normalize_tag (p_tag p)
           in if tag = [] then s
              else (case extract_8_cards p (card_meta env) of
                      None \<Rightarrow> s
                    | Some card_obs \<Rightarrow>
                        (let dh = deck_hash_of card_obs;
                             dtype = resolve_deck_type env dh card_obs;
                             won = participant_is_win_ranked_1v1 b tag
                         in record_participant top_tags tag card_obs dh dtype won s))))"

definition process_battle ::
  "etl_env \<Rightarrow> string set \<Rightarrow> battle option \<Rightarrow> etl_state \<Rightarrow> etl_state" where
  "process_battle env top_tags entry s =
     (case entry of
        None \<Rightarrow> s
      | Some b \<Rightarrow>
          if \<not> is_ranked_1v1_battle b then s
          else
            (let mh = match_hash b
             in if mh \<in> seen_matches s then s
                else
                  (let s1 = s\<lparr>seen_matches := insert mh (seen_matches s),
                              deduped_matches := deduped_matches s + 1\<rparr>
                   in case (list_or (b_team b) [], list_or (b_opponent b) []) of
                        ([t0], [o0]) \<Rightarrow>
                          process_participant env top_tags b o0
                            (process_participant env top_tags b t0 s1)
                      | _ \<Rightarrow> s1)))"

definition process_player :: "etl_env \<Rightarrow> string set \<Rightarrow> string \<Rightarrow> etl_state \<Rightarrow> etl_state" where
  "process_player env top_tags ptag s =
     (case get_player_battlelog env ptag of
        None \<Rightarrow> s
      | Some battles \<Rightarrow>
          fold (process_battle env top_tags) battles
            (s\<lparr>scanned_entries := scanned_entries s + int (length battles)\<rparr>))"

subsection \<open>The top players and the whole run\<close>

record raw_player =
  rp_tag :: "string option"
  rp_name :: "string option"
  rp_trophies :: "int option"
  rp_rank :: "int option"

record top_player =
  player_tag :: string
  player_name :: string
  trophies :: int
  rank_global :: int

fun build_top_players :: "int \<Rightarrow> raw_player list \<Rightarrow> top_player list" where
  "build_top_players i [] = []"
| "build_top_players i (p # ps) =
     (let tag = normalize_tag (rp_tag p)
      in if tag = [] then build_top_players (i + 1) ps
         else \<lparr>player_tag = tag, player_name = strip (str_or (rp_name p) []),
               trophies = int_or (rp_trophies p) 0, rank_global = int_or (rp_rank p) i\<rparr>
              # build_top_players (i + 1) ps)"

definition scan :: "etl_env \<Rightarrow> top_player list \<Rightarrow> etl_state" where
  "scan env top_players =
     (let top_tags = set (map player_tag top_players)
      in fold (\<lambda>pl. process_player env top_tags (player_tag pl)) top_players initial_state)"

text \<open>
  The second pass: \<open>player_type_cards_top\<close> from \<open>player_decks_top\<close>, with
  \<open>deck_hash_to_type.get(dh, "Hybrid")\<close> and \<open>deck_hash_to_cards.get(dh, [])\<close>.
\<close>

definition deck_type_of :: "etl_state \<Rightarrow> string \<Rightarrow> string" where
  "deck_type_of s dh = (case map_of (deck_hash_to_type s) dh of None \<Rightarrow> ''Hybrid'' | Some t \<Rightarrow> t)"

definition deck_cards_of :: "etl_state \<Rightarrow> string \<Rightarrow> CardObs list" where
  "deck_cards_of s dh = (case map_of (deck_hash_to_cards s) dh of None \<Rightarrow> [] | Some cs \<Rightarrow> cs)"

definition fan_out ::
  "etl_state \<Rightarrow> (string \<times> string) \<times> counter \<Rightarrow>
   (string \<times> string \<times> int \<times> string) counters \<Rightarrow> (string \<times> string \<times> int \<times> string) counters" where
  "fan_out s entry ptc =
     (case entry of
        ((ptag, dh), rec) \<Rightarrow>
          (let dtype = deck_type_of s dh
           in fold (\<lambda>c d. add_counter d (ptag, dtype, card_id c, card_variant c) (uses rec) (wins rec))
                (deck_cards_of s dh) ptc))"

definition derive_player_type_cards ::
  "etl_state \<Rightarrow> (string \<times> string \<times> int \<times> string) counters" where
  "derive_player_type_cards s = fold (fan_out s) (player_decks_top s) []"

definition etl_main ::
  "etl_env \<Rightarrow> raw_player list \<Rightarrow> etl_state \<times> (string \<times> string \<times> int \<times> string) counters" where
  "etl_main env raw =
     (let s = scan env (build_top_players 1 raw)
      in (s, derive_player_type_cards s))"

section \<open>Notions used to state the properties\<close>

text \<open>The identifier of a raw card entry, \<open>None\<close> when the entry has none.\<close>

definition entry_id :: "card_raw option \<Rightarrow> int option" where
  "entry_id e = (case e of None \<Rightarrow> None | Some c \<Rightarrow> c_id c)"

text \<open>The \<open>(card_id, variant)\<close> pair that a raw entry stands for.\<close>

definition entry_key :: "card_raw option \<Rightarrow> int option \<times> string" where
  "entry_key e =
     (entry_id e,
      case e of None \<Rightarrow> [] | Some c \<Rightarrow> card_variant_from_evolution_level (c_evolutionLevel c))"

definition obs_key :: "CardObs \<Rightarrow> int \<times> string" where
  "obs_key x = (card_id x, card_variant x)"

text \<open>Every counter has \<open>0 \<le> wins \<le> uses\<close>.\<close>

definition counter_ok :: "counter \<Rightarrow> bool" where
  "counter_ok c = (0 \<le> wins c \<and> wins c \<le> uses c)"

definition counters_ok :: "'k counters \<Rightarrow> bool" where
  "counters_ok d = list_all (\<lambda>e. counter_ok (snd e)) d"

definition state_ok :: "etl_state \<Rightarrow> bool" where
  "state_ok s =
     (counters_ok (meta_deck_types s) \<and> counters_ok (meta_type_deck_ids s)
      \<and> counters_ok (meta_type_cards s) \<and> counters_ok (player_decks_top s))"

text \<open>A counter after one more use, and one more win if the use was won.\<close>

definition bumped :: "counter \<Rightarrow> bool \<Rightarrow> counter" where
  "bumped c won = \<lparr>uses = uses c + 1, wins = wins c + (if won then 1 else 0)\<rparr>"

text \<open>The sums of the uses and of the wins of the counters whose key satisfies \<open>P\<close>.\<close>

definition total_uses :: "('k \<Rightarrow> bool) \<Rightarrow> 'k counters \<Rightarrow> int" where
  "total_uses P d = sum_list (map (\<lambda>e. uses (snd e)) (filter (\<lambda>e. P (fst e)) d))"

definition total_wins :: "('k \<Rightarrow> bool) \<Rightarrow> 'k counters \<Rightarrow> int" where
  "total_wins P d = sum_list (map (\<lambda>e. wins (snd e)) (filter (\<lambda>e. P (fst e)) d))"

text \<open>Every deck that a player counter names has its 8 card entries.\<close>

definition decks_complete :: "etl_state \<Rightarrow> bool" where
  "decks_complete s = list_all (\<lambda>e. length (deck_cards_of s (snd (fst e))) = 8) (player_decks_top s)"

text \<open>The keys of a player and an archetype, in the two player tables.\<close>

definition card_key_of :: "string \<Rightarrow> string \<Rightarrow> string \<times> string \<times> int \<times> string \<Rightarrow> bool" where
  "card_key_of p T k = (fst k = p \<and> fst (snd k) = T)"

definition deck_key_of :: "etl_state \<Rightarrow> string \<Rightarrow> string \<Rightarrow> string \<times> string \<Rightarrow> bool" where
  "deck_key_of s p T k = (fst k = p \<and> deck_type_of s (snd k) = T)"

text \<open>
  What the scan keeps true of its tables: a deck hash with a type has its cards, a deck has
  8 cards, and every deck of a player counter is registered.
\<close>

definition decks_inv :: "etl_state \<Rightarrow> bool" where
  "decks_inv s =
     ((\<forall>dh. map_of (deck_hash_to_cards s) dh = None \<longrightarrow> map_of (deck_hash_to_type s) dh = None)
      \<and> (\<forall>dh cs. map_of (deck_hash_to_cards s) dh = Some cs \<longrightarrow> length cs = 8)
      \<and> (\<forall>k \<in> fst ` set (player_decks_top s). map_of (deck_hash_to_cards s) (snd k) \<noteq> None))"

text \<open>The player tags of the player counters are normalised tags of top players.\<close>

definition tags_inv :: "string set \<Rightarrow> etl_state \<Rightarrow> bool" where
  "tags_inv top_tags s =
     (\<forall>k \<in> fst ` set (player_decks_top s).
        fst k \<in> top_tags \<and> normalize_tag (Some (fst k)) = fst k)"

section \<open>Sample data\<close>

definition row :: "string \<Rightarrow> rat \<Rightarrow> bool \<Rightarrow> bool \<Rightarrow> bool \<Rightarrow> string \<times> meta_row" where
  "row n e bait spam tank =
     (n, \<lparr>m_name = Some n, m_elixir = Some e, is_bait_piece = bait,
          is_bridge_spam_piece = spam, is_big_tank = tank\<rparr>)"

definition sample_by_name :: card_table where
  "sample_by_name = map_of
     [row ''X-Bow'' 6 False False False,
      row ''Tesla'' 4 False False False,
      row ''Skeletons'' 1 False False False,
      row ''Ice Spirit'' 1 False False False,
      row ''The Log'' 2 False False False,
      row ''Knight'' 3 False False False,
      row ''Archers'' 3 False False False,
      row ''Fireball'' 4 False False False,
      row ''Goblin Barrel'' 3 True False False,
      row ''Princess'' 3 True False False,
      row ''Goblin Gang'' 3 True False False,
      row ''Rocket'' 6 False False False]"

definition xbow_deck :: "string list" where
  "xbow_deck = [''X-Bow'', ''Tesla'', ''Skeletons'', ''Ice Spirit'', ''The Log'', ''Knight'',
                ''Archers'', ''Fireball'']"

definition bait_deck :: "string list" where
  "bait_deck = [''Goblin Barrel'', ''Princess'', ''Goblin Gang'', ''Skeletons'', ''Ice Spirit'',
                ''The Log'', ''Knight'', ''Rocket'']"

definition unknown_deck :: "string list" where
  "unknown_deck = [''Card A'', ''Card B'', '''', '''', ''Card C'', ''Card D'', ''Card E'', '''']"

definition deck_a :: "CardKey list" where
  "deck_a = [(''26000000'', ''normal''), (''26000001'', ''evo''), (''26000002'', ''normal''),
             (''26000003'', ''normal''), (''27000000'', ''normal''), (''27000001'', ''hero''),
             (''28000000'', ''normal''), (''28000001'', ''normal'')]"

definition raw_card :: "int \<Rightarrow> string \<Rightarrow> int \<Rightarrow> card_raw option" where
  "raw_card i n lvl = Some \<lparr>c_id = Some i, c_name = Some n, c_evolutionLevel = Some lvl\<rparr>"

definition siege_cards :: "card_raw option list" where
  "siege_cards =
     [raw_card 27000008 ''X-Bow'' 0, raw_card 27000006 ''Tesla'' 1,
      raw_card 26000010 ''Skeletons'' 0, raw_card 28000012 ''Ice Spirit'' 0,
      raw_card 28000011 ''The Log'' 0, raw_card 26000000 ''Knight'' 1,
      raw_card 26000001 ''Archers'' 0, raw_card 28000000 ''Fireball'' 0]"

definition bait_cards :: "card_raw option list" where
  "bait_cards =
     [raw_card 28000004 ''Goblin Barrel'' 0, raw_card 26000026 ''Princess'' 0,
      raw_card 26000041 ''Goblin Gang'' 0, raw_card 26000010 ''Skeletons'' 1,
      raw_card 28000012 ''Ice Spirit'' 0, raw_card 28000011 ''The Log'' 0,
      raw_card 26000000 ''Knight'' 2, raw_card 28000003 ''Rocket'' 0]"

definition p_valid :: participant where
  "p_valid = \<lparr>p_tag = Some ''#abc'', p_crowns = Some 3,
              p_cards = Some (siege_cards @ [raw_card 26000055 ''Mega Knight'' 0])\<rparr>"

definition p_seven :: participant where
  "p_seven = \<lparr>p_tag = Some ''#ABC'', p_crowns = Some 1, p_cards = Some (take 7 siege_cards)\<rparr>"

definition p_duplicate :: participant where
  "p_duplicate = \<lparr>p_tag = Some ''#ABC'', p_crowns = Some 1,
                  p_cards = Some (take 7 siege_cards @ [raw_card 27000008 ''X-Bow'' 0])\<rparr>"

definition sample_by_id :: card_table where
  "sample_by_id = map_of
     [(''27000008'', snd (row ''X-Bow'' 6 False False False)),
      (''26000010'', snd (row ''Skeletons'' 1 False False False)),
      (''26000000'', snd (row ''Knight'' 3 False False False))]"

section \<open>Deck signature and deck hash\<close>

lemma sort_key_pair_perm:
  fixes xs ys :: "CardKey list"
  assumes "mset xs = mset ys"
  shows "sort_key (\<lambda>x. (fst x, snd x)) xs = sort_key (\<lambda>x. (fst x, snd x)) ys"
proof -
  have key: "(\<lambda>x :: CardKey. (fst x, snd x)) = (\<lambda>x. x)"
    by (simp add: fun_eq_iff)
  have "sort ys = sort xs"
    by (rule properties_for_sort) (simp_all add: assms)
  then show ?thesis
    by (simp add: key)
qed

text \<open>
  Claim C2. For every sequence of 8 \<open>(card_id, variant)\<close> pairs and every permutation of
  it, \<open>canonical_deck_signature\<close> gives the same signature and \<open>deck_hash_from_signature\<close>
  the same deck hash: the order of the slots is no part of a deck's identity.
\<close>

theorem canonical_deck_signature_permutation_invariant:
  assumes "length cards = 8" and "mset cards' = mset cards"
  shows "canonical_deck_signature cards' = canonical_deck_signature cards
       \<and> deck_hash_from_signature (canonical_deck_signature cards')
         = deck_hash_from_signature (canonical_deck_signature cards)"
  using sort_key_pair_perm [OF assms(2)] by (simp add: canonical_deck_signature_def)

theorem canonical_deck_signature_permutation_invariant_witness:
  "length deck_a = 8 \<and> mset (rev deck_a) = mset deck_a
   \<and> rev deck_a \<noteq> deck_a
   \<and> canonical_deck_signature (rev deck_a) = canonical_deck_signature deck_a
   \<and> deck_hash_from_signature (canonical_deck_signature (rev deck_a))
     = deck_hash_from_signature (canonical_deck_signature deck_a)"
proof -
  have len: "length deck_a = 8" by (simp add: deck_a_def)
  have perm: "mset (rev deck_a) = mset deck_a" by simp
  have ne: "rev deck_a \<noteq> deck_a" by (simp add: deck_a_def)
  show ?thesis
    using canonical_deck_signature_permutation_invariant [OF len perm] len perm ne by blast
qed

section \<open>The archetype cascade\<close>

lemma classify_xbow:
  assumes "''X-Bow'' \<in> set cards"
  shows "classify_deck by_name cards = ARCHETYPE_SIEGE"
proof -
  from assms have "cards \<noteq> []" by auto
  with assms show ?thesis
    by (simp add: classify_deck_def precompute_deck_values_def Let_def)
qed

lemma classify_bait:
  assumes "''X-Bow'' \<notin> set cards" and "''Mortar'' \<notin> set cards"
    and "3 \<le> bait_pieces (precompute_deck_values by_name cards)"
  shows "classify_deck by_name cards = ARCHETYPE_BAIT"
proof -
  from assms(3) have "cards \<noteq> []"
    by (auto simp: precompute_deck_values_def Let_def)
  moreover have "\<not> has_xbow (precompute_deck_values by_name cards)"
    "\<not> has_mortar (precompute_deck_values by_name cards)"
    using assms(1,2) by (simp_all add: precompute_deck_values_def Let_def)
  ultimately show ?thesis
    using assms(3) by (simp add: classify_deck_def Let_def)
qed

text \<open>
  Claim C3. The classifier is a cascade in which the first matching rule wins: a card list
  that contains X-Bow is Siege whatever its elixir costs are, and a card list with at least
  three bait pieces and neither X-Bow nor Mortar is Bait, also when its four-card cycle cost
  is 9 or less.
\<close>

theorem classify_deck_cascade_precedence:
  "(''X-Bow'' \<in> set cards \<longrightarrow> classify_deck by_name cards = ARCHETYPE_SIEGE)
   \<and> (''X-Bow'' \<notin> set cards \<and> ''Mortar'' \<notin> set cards
        \<and> 3 \<le> bait_pieces (precompute_deck_values by_name cards)
      \<longrightarrow> classify_deck by_name cards = ARCHETYPE_BAIT)"
  using classify_xbow classify_bait by blast

lemmas deck_eval = precompute_deck_values_def known_elixirs_def get_card_meta_def empty_row_def
  sample_by_name_def row_def List.map_filter_def

lemma bait_deck_values:
  "four_card_cycle_cost (precompute_deck_values sample_by_name bait_deck) = 7"
  "bait_pieces (precompute_deck_values sample_by_name bait_deck) = 3"
  by (simp_all add: deck_eval bait_deck_def)

lemma xbow_deck_values:
  "four_card_cycle_cost (precompute_deck_values sample_by_name xbow_deck) = 7"
  by (simp_all add: deck_eval xbow_deck_def)

theorem classify_deck_cascade_precedence_witness:
  "''X-Bow'' \<in> set xbow_deck
   \<and> four_card_cycle_cost (precompute_deck_values sample_by_name xbow_deck) \<le> 9
   \<and> classify_deck sample_by_name xbow_deck = ARCHETYPE_SIEGE
   \<and> ''X-Bow'' \<notin> set bait_deck \<and> ''Mortar'' \<notin> set bait_deck
   \<and> 3 \<le> bait_pieces (precompute_deck_values sample_by_name bait_deck)
   \<and> four_card_cycle_cost (precompute_deck_values sample_by_name bait_deck) \<le> 9
   \<and> classify_deck sample_by_name bait_deck = ARCHETYPE_BAIT"
proof -
  have x: "''X-Bow'' \<in> set xbow_deck" by (simp add: xbow_deck_def)
  have b: "''X-Bow'' \<notin> set bait_deck \<and> ''Mortar'' \<notin> set bait_deck" by (simp add: bait_deck_def)
  show ?thesis
    using classify_deck_cascade_precedence [of xbow_deck sample_by_name]
      classify_deck_cascade_precedence [of bait_deck sample_by_name]
      x b bait_deck_values xbow_deck_values
    by simp
qed

lemma no_known_elixir:
  assumes "\<forall>c \<in> set cards. m_elixir (get_card_meta by_name c) = None"
  shows "known_elixirs by_name cards = []"
  using assms by (induction cards) (simp_all add: known_elixirs_def List.map_filter_def)

lemma archetype_neq_cycle:
  "ARCHETYPE_SIEGE \<noteq> ARCHETYPE_CYCLE" "ARCHETYPE_BAIT \<noteq> ARCHETYPE_CYCLE"
  "ARCHETYPE_BRIDGE_SPAM \<noteq> ARCHETYPE_CYCLE" "ARCHETYPE_BEATDOWN \<noteq> ARCHETYPE_CYCLE"
  "ARCHETYPE_HYBRID \<noteq> ARCHETYPE_CYCLE"
  by (simp_all add: ARCHETYPE_SIEGE_def ARCHETYPE_BAIT_def ARCHETYPE_CYCLE_def
      ARCHETYPE_BRIDGE_SPAM_def ARCHETYPE_BEATDOWN_def ARCHETYPE_HYBRID_def)

text \<open>
  Claim C9. When no card of a non-empty card list has a known elixir cost, the average
  elixir is 3 and the four-card cycle cost 12; 12 is above 9, so such a deck is never
  classified Cycle.
\<close>

theorem unknown_elixir_defaults:
  assumes "cards \<noteq> []"
    and "\<forall>c \<in> set cards. m_elixir (get_card_meta by_name c) = None"
  shows "avg_elixir (precompute_deck_values by_name cards) = 3
       \<and> four_card_cycle_cost (precompute_deck_values by_name cards) = 12
       \<and> \<not> four_card_cycle_cost (precompute_deck_values by_name cards) \<le> 9
       \<and> classify_deck by_name cards \<noteq> ARCHETYPE_CYCLE"
proof -
  let ?v = "precompute_deck_values by_name cards"
  have e: "known_elixirs by_name cards = []"
    by (rule no_known_elixir) (rule assms(2))
  have avg: "avg_elixir ?v = 3" and four: "four_card_cycle_cost ?v = 12"
    by (simp_all add: precompute_deck_values_def Let_def e)
  have "classify_deck by_name cards \<noteq> ARCHETYPE_CYCLE"
    using assms(1) four by (simp add: classify_deck_def Let_def archetype_neq_cycle)
  with avg four show ?thesis by simp
qed

theorem unknown_elixir_defaults_witness:
  "unknown_deck \<noteq> []
   \<and> set (map (\<lambda>c. m_elixir (get_card_meta sample_by_name c)) unknown_deck) = {None}
   \<and> avg_elixir (precompute_deck_values sample_by_name unknown_deck) = 3
   \<and> four_card_cycle_cost (precompute_deck_values sample_by_name unknown_deck) = 12
   \<and> classify_deck sample_by_name unknown_deck \<noteq> ARCHETYPE_CYCLE"
proof -
  have ne: "unknown_deck \<noteq> []" by (simp add: unknown_deck_def)
  have un: "\<forall>c \<in> set unknown_deck. m_elixir (get_card_meta sample_by_name c) = None"
    by (simp add: unknown_deck_def get_card_meta_def sample_by_name_def row_def empty_row_def)
  have un': "set (map (\<lambda>c. m_elixir (get_card_meta sample_by_name c)) unknown_deck) = {None}"
    by (simp add: unknown_deck_def get_card_meta_def sample_by_name_def row_def empty_row_def)
  show ?thesis
    using unknown_elixir_defaults [OF ne un] ne un' by simp
qed

section \<open>Card extraction\<close>

lemma build_obs_None_iff:
  "build_obs meta idx es = None \<longleftrightarrow> (\<exists>e \<in> set es. entry_id e = None)"
proof (induction es arbitrary: idx)
  case Nil
  then show ?case by simp
next
  case (Cons e es)
  show ?case
  proof (cases e)
    case None
    then show ?thesis by (simp add: entry_id_def)
  next
    case (Some c)
    show ?thesis
    proof (cases "c_id c")
      case None
      with Some show ?thesis by (simp add: entry_id_def)
    next
      case (Some cid)
      have "(build_obs meta idx (e # es) = None) = (build_obs meta (idx + 1) es = None)"
        using Some \<open>e = Some c\<close> by (simp split: option.splits)
      also have "\<dots> = (\<exists>e \<in> set es. entry_id e = None)"
        by (rule Cons.IH)
      finally show ?thesis
        using Some \<open>e = Some c\<close> by (simp add: entry_id_def)
    qed
  qed
qed

lemma build_obs_Some:
  assumes "build_obs meta idx es = Some out"
  shows "length out = length es
       \<and> map (\<lambda>x. (Some (card_id x), card_variant x)) out = map entry_key es
       \<and> map slot out = map (\<lambda>k. idx + int k) [0..<length es]"
  using assms
proof (induction es arbitrary: idx out)
  case Nil
  then show ?case by simp
next
  case (Cons e es)
  from Cons.prems obtain c cid out' where e: "e = Some c" and cid: "c_id c = Some cid"
    and rest: "build_obs meta (idx + 1) es = Some out'"
    and out: "out = make_obs meta idx c cid # out'"
    by (auto split: option.splits)
  from Cons.IH [OF rest] have len: "length out' = length es"
    and keys: "map (\<lambda>x. (Some (card_id x), card_variant x)) out' = map entry_key es"
    and slots: "map slot out' = map (\<lambda>k. idx + 1 + int k) [0..<length es]"
    by simp_all
  have "map (\<lambda>k. idx + int k) [0..<Suc (length es)]
      = idx # map (\<lambda>k. idx + 1 + int k) [0..<length es]"
    by (simp add: upt_rec [of 0] map_Suc_upt [symmetric] del: upt_Suc)
  with len keys slots show ?case
    by (simp add: out e cid make_obs_def entry_key_def entry_id_def Let_def del: upt_Suc)
qed

lemma distinct_Some_keys:
  "distinct (map (\<lambda>x. (Some (card_id x), card_variant x)) out) = distinct (map obs_key out)"
proof -
  have "map (\<lambda>x. (Some (card_id x), card_variant x)) out
      = map (\<lambda>(a, b). (Some a, b)) (map obs_key out)"
    by (simp add: obs_key_def)
  moreover have "inj (\<lambda>(a :: int, b :: string). (Some a, b))"
    by (auto simp: inj_on_def)
  ultimately show ?thesis
    by (simp add: distinct_map inj_on_subset [OF _ subset_UNIV] del: map_map)
qed

lemma card_8_iff_distinct:
  assumes "length xs = 8"
  shows "card (set xs) = 8 \<longleftrightarrow> distinct xs"
  using assms card_distinct [of xs] distinct_card [of xs] by auto

text \<open>
  Claim C6. Card extraction returns no observation exactly when the raw card list has fewer
  than 8 entries, or one of the first 8 entries has no card identifier, or the 8
  \<open>(card_id, variant)\<close> pairs are not all distinct. Otherwise it returns 8 observations, in
  slots 1 to 8, whose pairs are 8 distinct ones. It is a function of its two arguments and
  changes nothing.
\<close>

theorem extract_8_cards_none_iff:
  "(extract_8_cards participant meta = None \<longleftrightarrow>
      length (list_or (p_cards participant) []) < 8
      \<or> (\<exists>e \<in> set (take 8 (list_or (p_cards participant) [])). entry_id e = None)
      \<or> \<not> distinct (map entry_key (take 8 (list_or (p_cards participant) []))))
   \<and> (\<forall>out. extract_8_cards participant meta = Some out \<longrightarrow>
         length out = 8
         \<and> card (set (map obs_key out)) = 8
         \<and> distinct (map obs_key out)
         \<and> map slot out = [1, 2, 3, 4, 5, 6, 7, 8]
         \<and> map (\<lambda>x. (Some (card_id x), card_variant x)) out
           = map entry_key (take 8 (list_or (p_cards participant) [])))"
proof (cases "length (list_or (p_cards participant) []) < 8")
  case True
  then show ?thesis by (simp add: extract_8_cards_def)
next
  case False
  let ?es = "take 8 (list_or (p_cards participant) [])"
  from False have len8: "length ?es = 8" by simp
  show ?thesis
  proof (cases "build_obs meta 1 ?es")
    case None
    with False show ?thesis
      using build_obs_None_iff [of meta 1 ?es] by (simp add: extract_8_cards_def)
  next
    case (Some out)
    from build_obs_Some [OF Some] len8 have lo: "length out = 8"
      and keys: "map (\<lambda>x. (Some (card_id x), card_variant x)) out = map entry_key ?es"
      and slots: "map slot out = map (\<lambda>k. 1 + int k) [0..<8]"
      by simp_all
    have ids: "\<not> (\<exists>e \<in> set ?es. entry_id e = None)"
      using build_obs_None_iff [of meta 1 ?es] Some by simp
    have d: "distinct (map entry_key ?es) = distinct (map obs_key out)"
      using distinct_Some_keys [of out] keys by simp
    have c: "card (set (map obs_key out)) = 8 \<longleftrightarrow> distinct (map obs_key out)"
      by (rule card_8_iff_distinct) (simp add: lo)
    have s: "map slot out = [1, 2, 3, 4, 5, 6, 7, 8]"
      using slots by (simp add: upt_rec)
    have ex: "extract_8_cards participant meta
              = (if distinct (map obs_key out) then Some out else None)"
      using False Some c by (simp add: extract_8_cards_def obs_key_def [abs_def])
    show ?thesis
      using False ids d c s lo keys by (auto simp: ex)
  qed
qed

lemmas sample_cards_eval = siege_cards_def bait_cards_def raw_card_def list_or_def entry_key_def
  entry_id_def card_variant_from_evolution_level_def int_or_def

theorem extract_8_cards_none_iff_witness:
  "length (list_or (p_cards p_seven) []) < 8
   \<and> extract_8_cards p_seven sample_by_id = None
   \<and> \<not> distinct (map entry_key (take 8 (list_or (p_cards p_duplicate) [])))
   \<and> extract_8_cards p_duplicate sample_by_id = None
   \<and> extract_8_cards p_valid sample_by_id \<noteq> None
   \<and> length (the (extract_8_cards p_valid sample_by_id)) = 8
   \<and> distinct (map obs_key (the (extract_8_cards p_valid sample_by_id)))"
proof -
  have short: "length (list_or (p_cards p_seven) []) < 8"
    by (simp add: p_seven_def sample_cards_eval)
  have dup: "\<not> distinct (map entry_key (take 8 (list_or (p_cards p_duplicate) [])))"
    by (simp add: p_duplicate_def sample_cards_eval)
  have ok: "\<not> length (list_or (p_cards p_valid) []) < 8"
    "\<not> (\<exists>e \<in> set (take 8 (list_or (p_cards p_valid) [])). entry_id e = None)"
    "distinct (map entry_key (take 8 (list_or (p_cards p_valid) [])))"
    by (simp_all add: p_valid_def sample_cards_eval)
  have "extract_8_cards p_valid sample_by_id \<noteq> None"
    using extract_8_cards_none_iff [of p_valid sample_by_id] ok by blast
  then obtain out where out: "extract_8_cards p_valid sample_by_id = Some out"
    by blast
  then have "length out = 8 \<and> distinct (map obs_key out)"
    using extract_8_cards_none_iff [of p_valid sample_by_id] by blast
  moreover have "extract_8_cards p_seven sample_by_id = None"
    using extract_8_cards_none_iff [of p_seven sample_by_id] short by blast
  moreover have "extract_8_cards p_duplicate sample_by_id = None"
    using extract_8_cards_none_iff [of p_duplicate sample_by_id] dup by blast
  ultimately show ?thesis
    using short dup out by simp
qed

section \<open>Tag normalisation\<close>

lemma upper_char_cases:
  "upper_char c = c \<or> (c, upper_char c) \<in> set (zip ''abcdefghijklmnopqrstuvwxyz'' ''ABCDEFGHIJKLMNOPQRSTUVWXYZ'')"
  unfolding upper_char_def
  by (auto split: option.splits dest: map_of_SomeD)

lemma upper_char_hash: "upper_char c = CHR ''#'' \<longleftrightarrow> c = CHR ''#''"
  using upper_char_cases [of c] by auto

lemma is_space_upper_char: "is_space (upper_char c) = is_space c"
  using upper_char_cases [of c] by (auto simp: is_space_def)

lemma upper_char_idem: "upper_char (upper_char c) = upper_char c"
  using upper_char_cases [of c] by (auto simp: upper_char_def)

lemma upper_idem: "upper (upper s) = upper s"
  by (simp add: upper_def upper_char_idem)

lemma dropWhile_space_upper:
  "dropWhile is_space (upper s) = upper (dropWhile is_space s)"
  by (induction s) (simp_all add: upper_def is_space_upper_char)

lemma strip_upper: "strip (upper s) = upper (strip s)"
proof -
  have r: "\<And>xs. rev (upper xs) = upper (rev xs)"
    by (simp add: upper_def rev_map)
  show ?thesis
    by (simp add: strip_def dropWhile_space_upper r [symmetric])
      (simp add: r dropWhile_space_upper)
qed

text \<open>A string with no white space at either end.\<close>

lemma last_dropWhile:
  "dropWhile P xs \<noteq> [] \<Longrightarrow> last (dropWhile P xs) = last xs"
  by (induction xs) (auto split: if_splits)

lemma strip_ends:
  assumes "strip s \<noteq> []"
  shows "\<not> is_space (hd (strip s))" and "\<not> is_space (last (strip s))"
proof -
  let ?a = "dropWhile is_space s"
  let ?b = "dropWhile is_space (rev ?a)"
  from assms have b: "?b \<noteq> []" by (simp add: strip_def)
  have a: "?a \<noteq> []"
  proof
    assume e: "?a = []"
    have "?b = []" unfolding e by simp
    with b show False by simp
  qed
  have "hd (strip s) = last ?b"
    using b by (simp add: strip_def hd_rev)
  also have "\<dots> = last (rev ?a)"
    using b by (rule last_dropWhile)
  also have "\<dots> = hd ?a"
    using a by (simp add: last_rev)
  finally show "\<not> is_space (hd (strip s))"
    using a hd_dropWhile [of is_space s] by simp
  have "last (strip s) = hd ?b"
    using b by (simp add: strip_def last_rev)
  then show "\<not> is_space (last (strip s))"
    using b hd_dropWhile [of is_space "rev ?a"] by simp
qed

lemma strip_fixed:
  assumes "s \<noteq> []" and "\<not> is_space (hd s)" and "\<not> is_space (last s)"
  shows "strip s = s"
proof -
  from assms(1,2) have a: "dropWhile is_space s = s"
    by (cases s) simp_all
  from assms(1,3) have "dropWhile is_space (rev s) = rev s"
    by (cases "rev s") (simp_all add: last_rev [symmetric] hd_rev)
  with a show ?thesis by (simp add: strip_def)
qed

lemma strip_Nil [simp]: "strip [] = []"
  by (simp add: strip_def)

lemma strip_idem: "strip (strip s) = strip s"
proof (cases "strip s = []")
  case True
  then show ?thesis by simp
next
  case False
  then show ?thesis by (intro strip_fixed strip_ends)
qed

text \<open>The normal form of a tag: empty, or \<open>#\<close> followed by stripped upper-case text.\<close>

lemma normalize_tag_eq:
  "normalize_tag t =
     (if strip (str_or t []) = [] then []
      else if hd (strip (str_or t [])) = CHR ''#'' then upper (strip (str_or t []))
      else CHR ''#'' # upper (strip (str_or t [])))"
  by (cases "strip (str_or t [])")
    (simp_all add: normalize_tag_def Let_def upper_def upper_char_hash)

lemma str_or_Some_nonempty: "s \<noteq> [] \<Longrightarrow> str_or (Some s) [] = s"
  by (simp add: str_or_def)

lemma str_or_Some: "str_or (Some s) [] = s"
  by (simp add: str_or_def)

lemma normalize_tag_shape:
  "normalize_tag t = [] \<or> hd (normalize_tag t) = CHR ''#''"
  by (cases "strip (str_or t [])") (simp_all add: normalize_tag_eq upper_def upper_char_hash)

lemma normalize_tag_fixed:
  assumes "r \<noteq> []" and "hd r = CHR ''#''" and "\<not> is_space (last r)" and "upper r = r"
  shows "normalize_tag (Some r) = r"
proof -
  have "\<not> is_space (hd r)" using assms(2) by (simp add: is_space_def)
  then have "strip r = r" using assms(1,3) by (intro strip_fixed)
  then show ?thesis
    using assms by (simp add: normalize_tag_eq str_or_Some)
qed

lemma normalize_tag_idem:
  "normalize_tag (Some (normalize_tag t)) = normalize_tag t"
proof (cases "strip (str_or t []) = []")
  case True
  then show ?thesis by (simp add: normalize_tag_eq str_or_Some)
next
  case False
  let ?u = "strip (str_or t [])"
  let ?r = "normalize_tag t"
  have r: "?r = (if hd ?u = CHR ''#'' then upper ?u else CHR ''#'' # upper ?u)"
    using False by (simp add: normalize_tag_eq)
  have ne: "?r \<noteq> []" using False by (simp add: r upper_def)
  have hd: "hd ?r = CHR ''#''" using normalize_tag_shape [of t] ne by simp
  have "last ?r = upper_char (last ?u)"
    using False by (simp add: r upper_def last_map)
  then have lst: "\<not> is_space (last ?r)"
    using strip_ends(2) [OF False] by (simp add: is_space_upper_char)
  have up: "upper ?r = ?r"
    by (simp add: r upper_idem) (simp add: upper_def upper_char_def)
  show ?thesis by (rule normalize_tag_fixed [OF ne hd lst up])
qed

lemma normalize_tag_case:
  assumes "upper s = upper s'"
  shows "normalize_tag (Some s) = normalize_tag (Some s')"
proof -
  have "upper (strip s) = upper (strip s')"
    using assms by (simp add: strip_upper [symmetric])
  moreover have "strip s = [] \<longleftrightarrow> strip s' = []"
    using calculation by (simp add: upper_def) (metis map_is_Nil_conv)
  moreover have "strip s \<noteq> [] \<Longrightarrow> (hd (strip s) = CHR ''#'' \<longleftrightarrow> hd (strip s') = CHR ''#'')"
  proof -
    assume ne: "strip s \<noteq> []"
    then have ne': "strip s' \<noteq> []" using calculation(2) by simp
    have "upper_char (hd (strip s)) = upper_char (hd (strip s'))"
      using calculation(1) ne ne' by (metis hd_map upper_def)
    then show ?thesis by (metis upper_char_hash)
  qed
  ultimately show ?thesis
    by (simp add: normalize_tag_eq str_or_Some)
qed

lemma upper_hash_Cons: "upper (CHR ''#'' # s) = CHR ''#'' # upper s"
  by (simp add: upper_def upper_char_def)

lemma normalize_tag_hash_prefix:
  assumes "s \<noteq> []" and "\<not> is_space (hd s)" and "hd s \<noteq> CHR ''#''"
  shows "normalize_tag (Some (CHR ''#'' # s)) = normalize_tag (Some s)"
proof -
  from assms(1,2) have l: "dropWhile is_space s = s" by (cases s) simp_all
  have h: "\<not> is_space CHR ''#''" by (simp add: is_space_def)
  let ?b = "dropWhile is_space (rev s)"
  have b: "?b \<noteq> []"
  proof
    assume "?b = []"
    then have "\<forall>x \<in> set (rev s). is_space x" by simp
    with assms(1,2) show False by (cases s) auto
  qed
  have s1: "strip s = rev ?b" by (simp add: strip_def l)
  from b obtain x where x: "x \<in> set (rev s)" "\<not> is_space x"
    by (auto simp: dropWhile_eq_Nil_conv)
  have "dropWhile is_space (rev s @ [CHR ''#'']) = ?b @ [CHR ''#'']"
    using x by (rule dropWhile_append1 [where P = is_space])
  then have s2: "strip (CHR ''#'' # s) = CHR ''#'' # rev ?b"
    using h by (simp add: strip_def)
  have "hd (rev ?b) = hd s"
    using b l by (metis hd_rev last_dropWhile last_rev assms(1) rev_is_Nil_conv)
  with b assms(3) show ?thesis
    by (auto simp: normalize_tag_eq str_or_Some s1 s2 upper_hash_Cons)
qed

section \<open>Aggregate counters\<close>

lemma get_counter_add:
  "get_counter (add_counter d k u w) k' =
     (if k' = k then \<lparr>uses = uses (get_counter d k) + u, wins = wins (get_counter d k) + w\<rparr>
      else get_counter d k')"
  by (simp add: get_counter_def add_counter_def update_conv')

lemma set_update_subset: "set (AList.update k v d) \<subseteq> insert (k, v) (set d)"
  by (induction d) auto

lemma get_counter_ok:
  assumes "counters_ok d"
  shows "counter_ok (get_counter d k)"
proof (cases "map_of d k")
  case None
  then show ?thesis by (simp add: get_counter_def zero_counter_def counter_ok_def)
next
  case (Some c)
  then have "(k, c) \<in> set d" by (rule map_of_SomeD)
  with assms have "counter_ok c" by (auto simp: counters_ok_def list_all_iff)
  with Some show ?thesis by (simp add: get_counter_def)
qed

lemma counters_ok_add:
  assumes "counters_ok d" and "0 \<le> w" and "w \<le> u"
  shows "counters_ok (add_counter d k u w)"
proof -
  let ?v = "\<lparr>uses = uses (get_counter d k) + u, wins = wins (get_counter d k) + w\<rparr>"
  have "counter_ok ?v"
    using get_counter_ok [OF assms(1), of k] assms(2,3) by (simp add: counter_ok_def)
  with assms(1) show ?thesis
    using set_update_subset [of k ?v d]
    by (auto simp: counters_ok_def list_all_iff add_counter_def)
qed

lemma counters_ok_fold_add:
  assumes "counters_ok d" and "0 \<le> w" and "w \<le> u"
  shows "counters_ok (fold (\<lambda>c d. add_counter d (f c) u w) cs d)"
  using assms(1) by (induction cs arbitrary: d) (simp_all add: counters_ok_add assms(2,3))

lemma state_ok_record_participant:
  assumes "state_ok s"
  shows "state_ok (record_participant top_tags tag card_obs dh dtype won s)"
  using assms
  by (simp add: state_ok_def record_participant_def Let_def counters_ok_add counters_ok_fold_add)

lemma state_ok_process_participant:
  assumes "state_ok s"
  shows "state_ok (process_participant env top_tags b part s)"
  using assms
  by (simp add: process_participant_def Let_def state_ok_record_participant split: option.splits)

lemma state_ok_seen:
  "state_ok (s\<lparr>seen_matches := x, deduped_matches := y\<rparr>) = state_ok s"
  "state_ok (s\<lparr>scanned_entries := z\<rparr>) = state_ok s"
  by (simp_all add: state_ok_def)

lemma state_ok_process_battle:
  assumes "state_ok s"
  shows "state_ok (process_battle env top_tags entry s)"
  using assms
  by (auto simp: process_battle_def Let_def state_ok_seen state_ok_process_participant
      split: option.splits list.splits)

lemma state_ok_fold_battles:
  assumes "state_ok s"
  shows "state_ok (fold (process_battle env top_tags) battles s)"
  using assms by (induction battles arbitrary: s) (simp_all add: state_ok_process_battle)

lemma state_ok_process_player:
  assumes "state_ok s"
  shows "state_ok (process_player env top_tags ptag s)"
  using assms
  by (simp add: process_player_def state_ok_fold_battles state_ok_seen split: option.splits)

lemma state_ok_fold_players:
  assumes "state_ok s"
  shows "state_ok (fold (\<lambda>pl. process_player env top_tags (player_tag pl)) pls s)"
  using assms by (induction pls arbitrary: s) (simp_all add: state_ok_process_player)

lemma state_ok_initial: "state_ok initial_state"
  by (simp add: state_ok_def initial_state_def counters_ok_def)

lemma state_ok_scan: "state_ok (scan env top_players)"
  by (simp add: scan_def Let_def state_ok_fold_players state_ok_initial)

lemma counters_ok_fan_out:
  assumes "counters_ok ptc" and "counter_ok (snd entry)"
  shows "counters_ok (fan_out s entry ptc)"
  using assms
  by (cases entry) (auto simp: fan_out_def Let_def counter_ok_def intro!: counters_ok_fold_add)

lemma counters_ok_fold_fan_out:
  assumes "counters_ok ptc" and "counters_ok pd"
  shows "counters_ok (fold (fan_out s) pd ptc)"
  using assms
proof (induction pd arbitrary: ptc)
  case Nil
  then show ?case by simp
next
  case (Cons e pd)
  from Cons.prems(2) have e: "counter_ok (snd e)" and pd: "counters_ok pd"
    by (simp_all add: counters_ok_def)
  show ?case
    using Cons.IH [OF counters_ok_fan_out [OF Cons.prems(1) e] pd] by simp
qed

lemma counters_ok_derive:
  assumes "state_ok s"
  shows "counters_ok (derive_player_type_cards s)"
proof -
  have "counters_ok ([] :: (string \<times> string \<times> int \<times> string) counters)"
    by (simp add: counters_ok_def)
  moreover from assms have "counters_ok (player_decks_top s)"
    by (simp add: state_ok_def)
  ultimately show ?thesis
    unfolding derive_player_type_cards_def by (rule counters_ok_fold_fan_out)
qed

lemma get_counter_fold_add_distinct:
  assumes "distinct (map f cs)"
  shows "get_counter (fold (\<lambda>c d. add_counter d (f c) u w) cs d) k =
           (if k \<in> f ` set cs
            then \<lparr>uses = uses (get_counter d k) + u, wins = wins (get_counter d k) + w\<rparr>
            else get_counter d k)"
  using assms
proof (induction cs arbitrary: d)
  case Nil
  then show ?case by simp
next
  case (Cons c cs)
  from Cons.prems have d: "distinct (map f cs)" and n: "f c \<notin> f ` set cs" by simp_all
  show ?case
    using n by (auto simp: Cons.IH [OF d] get_counter_add)
qed

lemma record_participant_meta:
  assumes "distinct (map obs_key card_obs)"
    and "s' = record_participant top_tags tag card_obs dh dtype won s"
  shows "get_counter (meta_deck_types s') k1 =
           (if k1 = dtype then bumped (get_counter (meta_deck_types s) k1) won
            else get_counter (meta_deck_types s) k1)"
    and "get_counter (meta_type_deck_ids s') k2 =
           (if k2 = (dtype, dh) then bumped (get_counter (meta_type_deck_ids s) k2) won
            else get_counter (meta_type_deck_ids s) k2)"
    and "get_counter (meta_type_cards s') k3 =
           (if k3 \<in> (\<lambda>c. (dtype, card_id c, card_variant c)) ` set card_obs
            then bumped (get_counter (meta_type_cards s) k3) won
            else get_counter (meta_type_cards s) k3)"
    and "get_counter (player_decks_top s') k4 =
           (if tag \<in> top_tags \<and> k4 = (tag, dh)
            then bumped (get_counter (player_decks_top s) k4) won
            else get_counter (player_decks_top s) k4)"
proof -
  note s'_def = assms(2)
  have inj: "distinct (map (\<lambda>c. (dtype, card_id c, card_variant c)) card_obs)"
  proof -
    have "map (\<lambda>c. (dtype, card_id c, card_variant c)) card_obs
        = map (\<lambda>k. (dtype, fst k, snd k)) (map obs_key card_obs)"
      by (simp add: obs_key_def)
    moreover have "inj (\<lambda>k :: int \<times> string. (dtype, fst k, snd k))"
      by (auto simp: inj_on_def prod_eq_iff)
    ultimately show ?thesis
      using assms(1) by (simp add: distinct_map inj_on_subset [OF _ subset_UNIV] del: map_map)
  qed
  show "get_counter (meta_deck_types s') k1 =
           (if k1 = dtype then bumped (get_counter (meta_deck_types s) k1) won
            else get_counter (meta_deck_types s) k1)"
    by (simp add: s'_def record_participant_def Let_def get_counter_add bumped_def)
  show "get_counter (meta_type_deck_ids s') k2 =
           (if k2 = (dtype, dh) then bumped (get_counter (meta_type_deck_ids s) k2) won
            else get_counter (meta_type_deck_ids s) k2)"
    by (simp add: s'_def record_participant_def Let_def get_counter_add bumped_def)
  show "get_counter (meta_type_cards s') k3 =
           (if k3 \<in> (\<lambda>c. (dtype, card_id c, card_variant c)) ` set card_obs
            then bumped (get_counter (meta_type_cards s) k3) won
            else get_counter (meta_type_cards s) k3)"
    by (simp add: s'_def record_participant_def Let_def bumped_def
        get_counter_fold_add_distinct [OF inj])
  show "get_counter (player_decks_top s') k4 =
           (if tag \<in> top_tags \<and> k4 = (tag, dh)
            then bumped (get_counter (player_decks_top s) k4) won
            else get_counter (player_decks_top s) k4)"
    by (simp add: s'_def record_participant_def Let_def get_counter_add bumped_def)
qed

lemma extract_distinct:
  assumes "extract_8_cards p meta = Some card_obs"
  shows "distinct (map obs_key card_obs)" and "length card_obs = 8"
  using extract_8_cards_none_iff [of p meta] assms by blast+

lemma process_participant_valid:
  assumes "normalize_tag (p_tag p) \<noteq> []"
    and "extract_8_cards p (card_meta env) = Some card_obs"
  shows "process_participant env top_tags b (Some p) s =
           record_participant top_tags (normalize_tag (p_tag p)) card_obs
             (deck_hash_of card_obs) (resolve_deck_type env (deck_hash_of card_obs) card_obs)
             (participant_is_win_ranked_1v1 b (normalize_tag (p_tag p))) s"
  using assms by (simp add: process_participant_def Let_def)

lemma win_team_side:
  assumes "list_or (b_team b) [] = [Some t]" and "list_or (b_opponent b) [] = [Some q]"
  shows "participant_is_win_ranked_1v1 b (normalize_tag (p_tag t))
         = (int_or (p_crowns t) 0 > int_or (p_crowns q) 0)"
  using assms by (simp add: participant_is_win_ranked_1v1_def Let_def normalize_tag_idem)

lemma win_opponent_side:
  assumes "list_or (b_team b) [] = [Some t]" and "list_or (b_opponent b) [] = [Some q]"
    and "normalize_tag (p_tag q) \<noteq> normalize_tag (p_tag t)"
  shows "participant_is_win_ranked_1v1 b (normalize_tag (p_tag q))
         = (int_or (p_crowns q) 0 > int_or (p_crowns t) 0)"
  using assms by (simp add: participant_is_win_ranked_1v1_def Let_def normalize_tag_idem)

lemma win_same_tag:
  assumes "list_or (b_team b) [] = [Some t]" and "list_or (b_opponent b) [] = [Some q]"
    and "normalize_tag (p_tag q) = normalize_tag (p_tag t)"
  shows "participant_is_win_ranked_1v1 b (normalize_tag (p_tag q))
         = (int_or (p_crowns t) 0 > int_or (p_crowns q) 0)"
  using assms by (simp add: participant_is_win_ranked_1v1_def Let_def normalize_tag_idem)

section \<open>The fan-out to card counters\<close>

lemma total_uses_update:
  "total_uses P (AList.update k v d) =
     total_uses P d + (if P k then uses v - uses (get_counter d k) else 0)"
  by (induction d) (auto simp: total_uses_def get_counter_def zero_counter_def)

lemma total_wins_update:
  "total_wins P (AList.update k v d) =
     total_wins P d + (if P k then wins v - wins (get_counter d k) else 0)"
  by (induction d) (auto simp: total_wins_def get_counter_def zero_counter_def)

lemma total_add_counter:
  "total_uses P (add_counter d k u w) = total_uses P d + (if P k then u else 0)"
  "total_wins P (add_counter d k u w) = total_wins P d + (if P k then w else 0)"
  by (simp_all add: add_counter_def total_uses_update total_wins_update)

lemma total_fold_add_counter:
  "total_uses P (fold (\<lambda>c d. add_counter d (f c) u w) cs d)
     = total_uses P d + u * int (length (filter (\<lambda>c. P (f c)) cs))"
  "total_wins P (fold (\<lambda>c d. add_counter d (f c) u w) cs d)
     = total_wins P d + w * int (length (filter (\<lambda>c. P (f c)) cs))"
  by (induction cs arbitrary: d) (simp_all add: total_add_counter algebra_simps)

lemma total_fan_out:
  "total_uses (card_key_of p T) (fan_out s e ptc)
     = total_uses (card_key_of p T) ptc
       + (if deck_key_of s p T (fst e) then uses (snd e) * int (length (deck_cards_of s (snd (fst e)))) else 0)"
  "total_wins (card_key_of p T) (fan_out s e ptc)
     = total_wins (card_key_of p T) ptc
       + (if deck_key_of s p T (fst e) then wins (snd e) * int (length (deck_cards_of s (snd (fst e)))) else 0)"
  by (cases e; cases "fst e";
      simp add: fan_out_def Let_def total_fold_add_counter card_key_of_def deck_key_of_def)+

lemma total_fold_fan_out:
  assumes "list_all (\<lambda>e. length (deck_cards_of s (snd (fst e))) = 8) pd"
  shows "total_uses (card_key_of p T) (fold (fan_out s) pd ptc)
           = total_uses (card_key_of p T) ptc + 8 * total_uses (deck_key_of s p T) pd"
    and "total_wins (card_key_of p T) (fold (fan_out s) pd ptc)
           = total_wins (card_key_of p T) ptc + 8 * total_wins (deck_key_of s p T) pd"
  using assms
  by (induction pd arbitrary: ptc)
    (simp_all add: total_fan_out, simp_all add: total_uses_def total_wins_def)

lemma fan_out_totals:
  assumes "decks_complete s"
  shows "total_uses (card_key_of p T) (derive_player_type_cards s)
           = 8 * total_uses (deck_key_of s p T) (player_decks_top s)"
    and "total_wins (card_key_of p T) (derive_player_type_cards s)
           = 8 * total_wins (deck_key_of s p T) (player_decks_top s)"
  using total_fold_fan_out [of s "player_decks_top s" p T "[]"] assms
  by (simp_all add: derive_player_type_cards_def decks_complete_def)
    (simp_all add: total_uses_def total_wins_def)

end
